theory Spec2Isabelle
  imports Main "HOL-Library.Word"
begin

unbundle bit_operations_syntax

section \<open>The VPK archiver of PhysicsFS (physfs_archiver_vpk.c)\<close>

text \<open>
  The development embeds the three routines of the file: the bounded string reader
  \<open>vpkReadString\<close>, the two definitions of \<open>vpkLoadEntries\<close> and the entry point
  \<open>VPK_openArchive\<close>. A C function that returns \<open>int\<close> returns an \<open>int\<close> here; what it
  does to the stream and to the error state of the library is returned next to it.
\<close>

subsection \<open>Bytes, error codes and the stream\<close>

type_synonym byte = "8 word"

text \<open>The error codes of \<open>physfs.h\<close> that this file and its callees set.\<close>

datatype PHYSFS_ErrorCode =
    PHYSFS_ERR_OK
  | PHYSFS_ERR_UNSUPPORTED
  | PHYSFS_ERR_PAST_EOF
  | PHYSFS_ERR_READ_ONLY
  | PHYSFS_ERR_CORRUPT
  | PHYSFS_ERR_IO

text \<open>
  What the routines act on: the bytes behind the \<open>PHYSFS_Io\<close>, its read cursor, and the
  error code of the calling thread (what \<open>PHYSFS_getLastErrorCode\<close> would report).
\<close>

record machine =
  stream :: "byte list"
  cursor :: nat
  errcode :: PHYSFS_ErrorCode

text \<open>
  Modelled from the spec: \<open>__PHYSFS_readAll\<close> of \<open>physfs.c\<close> is not in this file. It is the
  \<open>readExact(buffer, n)\<close> of the spec: it yields the next \<open>n\<close> bytes and moves the cursor
  past them, and a short read is a failure, here an I/O failure that leaves the cursor at
  the end of the stream.
\<close>

definition PHYSFS_readAll :: "machine \<Rightarrow> nat \<Rightarrow> byte list option \<times> machine" where
  "PHYSFS_readAll s n =
     (if cursor s + n \<le> length (stream s)
      then (Some (take n (drop (cursor s) (stream s))), s\<lparr>cursor := cursor s + n\<rparr>)
      else (None, s\<lparr>cursor := max (cursor s) (length (stream s)),
                     errcode := PHYSFS_ERR_IO\<rparr>))"

text \<open>
  Modelled from the spec: \<open>io->seek\<close> is the \<open>seek(absoluteOffset)\<close> of the spec, a
  success or a failure. It fails past the end of the stream, as the memory stream of the
  library does.
\<close>

definition io_seek :: "machine \<Rightarrow> nat \<Rightarrow> bool \<times> machine" where
  "io_seek s off =
     (if off \<le> length (stream s)
      then (True, s\<lparr>cursor := off\<rparr>)
      else (False, s\<lparr>errcode := PHYSFS_ERR_PAST_EOF\<rparr>))"

subsection \<open>The bounded string reader\<close>

text \<open>
  \<open>vpkReadString(io, dest, maxlen)\<close>. The array \<open>dest\<close> is written at the indices
  \<open>0, 1, 2, ...\<close> in this order and at no other, so it is modelled by the list of the
  bytes stored so far: \<open>dest[pos++] = c\<close> appends \<open>c\<close>. The result is the returned \<open>int\<close>,
  the bytes stored and the machine after the call. \<open>BAIL_IF_ERRPASS(c, r)\<close> returns \<open>r\<close>
  when \<open>c\<close> holds and leaves the error code as the callee set it.
\<close>

function vpkReadString_loop ::
  "machine \<Rightarrow> byte list \<Rightarrow> nat \<Rightarrow> nat \<Rightarrow> int \<times> byte list \<times> machine" where
  "vpkReadString_loop s dest maxlen pos =
     (if pos < maxlen then
        (case PHYSFS_readAll s 1 of
           (None, s') \<Rightarrow> (0, dest, s')
         | (Some bs, s') \<Rightarrow>
             (let c = hd bs; dest' = dest @ [c] in
              if c = 0 then (1, dest', s')
              else vpkReadString_loop s' dest' maxlen (pos + 1)))
      else (0, dest, s))"
  by pat_completeness auto
termination
  by (relation "measure (\<lambda>(s, dest, maxlen, pos). maxlen - pos)") auto

definition vpkReadString :: "machine \<Rightarrow> nat \<Rightarrow> int \<times> byte list \<times> machine" where
  "vpkReadString s maxlen = vpkReadString_loop s [] maxlen 0"

text \<open>What the reader does when it returns nonzero, needed for the termination of its callers.\<close>

declare vpkReadString_loop.simps [simp del]

lemma PHYSFS_readAll_Some:
  "PHYSFS_readAll s n = (Some bs, s') \<Longrightarrow>
     s' = s\<lparr>cursor := cursor s + n\<rparr> \<and> cursor s + n \<le> length (stream s) \<and>
     bs = take n (drop (cursor s) (stream s))"
  by (auto simp: PHYSFS_readAll_def split: if_splits)

lemma PHYSFS_readAll_1:
  "PHYSFS_readAll s (Suc 0) =
     (if cursor s < length (stream s)
      then (Some [stream s ! cursor s], s\<lparr>cursor := Suc (cursor s)\<rparr>)
      else (None, s\<lparr>cursor := max (cursor s) (length (stream s)), errcode := PHYSFS_ERR_IO\<rparr>))"
  by (auto simp: PHYSFS_readAll_def take_Suc_conv_app_nth Cons_nth_drop_Suc [symmetric])

lemma vpkReadString_loop_step:
  "vpkReadString_loop s dest maxlen pos =
     (if pos < maxlen then
        if cursor s < length (stream s) then
          if stream s ! cursor s = 0
          then (1, dest @ [0], s\<lparr>cursor := Suc (cursor s)\<rparr>)
          else vpkReadString_loop (s\<lparr>cursor := Suc (cursor s)\<rparr>)
                 (dest @ [stream s ! cursor s]) maxlen (Suc pos)
        else (0, dest, s\<lparr>cursor := max (cursor s) (length (stream s)),
                           errcode := PHYSFS_ERR_IO\<rparr>)
      else (0, dest, s))"
  by (subst vpkReadString_loop.simps) (simp add: PHYSFS_readAll_1 Let_def)

lemma vpkReadString_loop_ok:
  "vpkReadString_loop s dest maxlen pos = (r, buf, s') \<Longrightarrow> r \<noteq> 0 \<Longrightarrow>
     \<exists>n. pos + n < maxlen \<and> cursor s + n < length (stream s) \<and>
         (\<forall>i<n. stream s ! (cursor s + i) \<noteq> 0) \<and> stream s ! (cursor s + n) = 0 \<and>
         r = 1 \<and> s' = s\<lparr>cursor := cursor s + n + 1\<rparr> \<and>
         buf = dest @ take (n + 1) (drop (cursor s) (stream s))"
proof (induction s dest maxlen pos rule: vpkReadString_loop.induct)
  case (1 s dest maxlen pos)
  from "1.prems" have lt: "pos < maxlen" and inb: "cursor s < length (stream s)"
    by (auto simp: vpkReadString_loop_step [of s dest maxlen pos] split: if_splits)
  show ?case
  proof (cases "stream s ! cursor s = 0")
    case True
    with "1.prems" lt inb have "r = 1" "s' = s\<lparr>cursor := cursor s + 0 + 1\<rparr>"
      "buf = dest @ take (0 + 1) (drop (cursor s) (stream s))"
      by (auto simp: vpkReadString_loop_step [of s dest maxlen pos] take_Suc_conv_app_nth
          Cons_nth_drop_Suc [symmetric])
    with True lt inb show ?thesis by (intro exI [of _ 0]) simp
  next
    case False
    let ?s1 = "s\<lparr>cursor := Suc (cursor s)\<rparr>"
    let ?d1 = "dest @ [stream s ! cursor s]"
    have rd: "PHYSFS_readAll s 1 = (Some [stream s ! cursor s], ?s1)"
      using inb by (simp add: PHYSFS_readAll_1)
    have hd: "stream s ! cursor s = hd [stream s ! cursor s]" by simp
    have rec: "vpkReadString_loop ?s1 ?d1 maxlen (pos + 1) = (r, buf, s')"
      using "1.prems" lt inb False
      by (simp add: vpkReadString_loop_step [of s dest maxlen pos])
    from "1.IH" [OF lt rd [symmetric] refl hd refl _ rec "1.prems"(2)] False
    obtain n where n: "pos + 1 + n < maxlen" "cursor ?s1 + n < length (stream ?s1)"
      "\<forall>i<n. stream ?s1 ! (cursor ?s1 + i) \<noteq> 0" "stream ?s1 ! (cursor ?s1 + n) = 0"
      "r = 1" "s' = ?s1\<lparr>cursor := cursor ?s1 + n + 1\<rparr>"
      "buf = ?d1 @ take (n + 1) (drop (cursor ?s1) (stream ?s1))"
      by auto
    have nz: "\<forall>i<Suc n. stream s ! (cursor s + i) \<noteq> 0"
    proof (intro allI impI)
      fix i assume "i < Suc n"
      then show "stream s ! (cursor s + i) \<noteq> 0"
        using False n(3) by (cases i) auto
    qed
    have buf: "buf = dest @ take (Suc n + 1) (drop (cursor s) (stream s))"
      using n(7) inb by (simp add: Cons_nth_drop_Suc [symmetric])
    show ?thesis
      using n nz buf by (intro exI [of _ "Suc n"]) simp
  qed
qed


lemma vpkReadString_ok:
  assumes "vpkReadString s maxlen = (r, buf, s')" and "r \<noteq> 0"
  shows "\<exists>n. n < maxlen \<and> cursor s + n < length (stream s) \<and>
         (\<forall>i<n. stream s ! (cursor s + i) \<noteq> 0) \<and> stream s ! (cursor s + n) = 0 \<and>
         r = 1 \<and> s' = s\<lparr>cursor := cursor s + n + 1\<rparr> \<and>
         buf = take (n + 1) (drop (cursor s) (stream s))"
  using vpkReadString_loop_ok [of s "[]" maxlen 0 r buf s'] assms
  by (simp add: vpkReadString_def)

lemma vpkReadString_advances:
  assumes "vpkReadString s maxlen = (r, buf, s')" and "r \<noteq> 0"
  shows "length (stream s') - cursor s' < length (stream s) - cursor s"
  using vpkReadString_ok [OF assms] by auto

subsection \<open>Integers in memory and on the wire\<close>

text \<open>
  The file reads integers with \<open>__PHYSFS_readAll(io, &x, n)\<close>: the \<open>n\<close> bytes of the stream
  become the memory of \<open>x\<close>, and the value of \<open>x\<close> is then what the host makes of that
  memory. \<open>le_word\<close> is the little-endian reading of a byte list, \<open>native\<close> the host's.
\<close>

datatype byteorder = PHYSFS_LIL_ENDIAN | PHYSFS_BIG_ENDIAN

fun le_word :: "byte list \<Rightarrow> 'a::len word" where
  "le_word [] = 0"
| "le_word (b # bs) = ucast b OR push_bit 8 (le_word bs)"

definition native :: "byteorder \<Rightarrow> byte list \<Rightarrow> 'a::len word" where
  "native host bs =
     (case host of PHYSFS_LIL_ENDIAN \<Rightarrow> le_word bs | PHYSFS_BIG_ENDIAN \<Rightarrow> le_word (rev bs))"

text \<open>
  Modelled from the spec: \<open>PHYSFS_swapULE32\<close> of \<open>physfs_byteorder.c\<close> is not in this
  file. The spec has the header fields read "in little-endian order regardless of host byte
  order": the function is the identity on a little-endian host and reverses the four bytes
  of its argument on a big-endian one.
\<close>

definition PHYSFS_Swap32 :: "32 word \<Rightarrow> 32 word" where
  "PHYSFS_Swap32 D =
     le_word [ucast (drop_bit 24 D), ucast (drop_bit 16 D), ucast (drop_bit 8 D), ucast D]"

definition PHYSFS_swapULE32 :: "byteorder \<Rightarrow> 32 word \<Rightarrow> 32 word" where
  "PHYSFS_swapULE32 host x =
     (case host of PHYSFS_LIL_ENDIAN \<Rightarrow> x | PHYSFS_BIG_ENDIAN \<Rightarrow> PHYSFS_Swap32 x)"

definition VPK_SIG :: "32 word" where
  "VPK_SIG = 0x55AA1234"

text \<open>The C string held in a \<open>char\<close> array: its bytes before the first NUL.\<close>

definition c_str :: "byte list \<Rightarrow> byte list" where
  "c_str buf = takeWhile (\<lambda>c. c \<noteq> 0) buf"

subsection \<open>The Entry Registry\<close>

text \<open>
  Modelled from the spec: \<open>UNPK_openArchive\<close>, \<open>UNPK_addEntry\<close> and \<open>UNPK_abandonArchive\<close>
  of \<open>physfs_archiver_unpacked.c\<close> are not in this file. The spec has "an opaque
  archive-registry handle created before decoding begins", an
  \<open>addEntry(handle, path, offset, size)\<close> "that registers one resolved entry" into a registry
  that "accumulates (path, offset, size) triples", and an \<open>abandon(handle)\<close> "releasing any
  partially built state". The registry is the list of its entries in the order of their
  registration. The path of an entry is the C string in the array passed as \<open>name\<close>.
  The C functions return a pointer, NULL on failure; here \<open>None\<close> is NULL.
\<close>

record UNPKentry =
  path :: "byte list"
  startPos :: "32 word"
  size_bytes :: "32 word"

type_synonym UNPKinfo = "UNPKentry list"

definition UNPK_openArchive :: "machine \<Rightarrow> UNPKinfo option" where
  "UNPK_openArchive s = Some []"

definition UNPK_addEntry :: "UNPKinfo \<Rightarrow> byte list \<Rightarrow> 32 word \<Rightarrow> 32 word \<Rightarrow> UNPKinfo option" where
  "UNPK_addEntry arc name pos len =
     Some (arc @ [\<lparr>path = c_str name, startPos = pos, size_bytes = len\<rparr>])"

subsection \<open>The first definition of \<open>vpkLoadEntries\<close>: the tree walker\<close>

text \<open>
  \<open>struct vpk_entry\<close>, filled field by field from the stream with no byte swap: each field
  is the host's reading of its bytes.
\<close>

record vpk_entry =
  crc :: "32 word"
  preload :: "16 word"
  archive :: "16 word"
  offset :: "32 word"
  esize :: "32 word"
  terminator :: "16 word"

text \<open>The six reads of lines 97 to 102, each under \<open>BAIL_IF_ERRPASS\<close>.\<close>

definition vpk_read_entry :: "byteorder \<Rightarrow> machine \<Rightarrow> vpk_entry option \<times> machine" where
  "vpk_read_entry host s =
     (case PHYSFS_readAll s 4 of (None, s1) \<Rightarrow> (None, s1) | (Some b_crc, s1) \<Rightarrow>
     (case PHYSFS_readAll s1 2 of (None, s2) \<Rightarrow> (None, s2) | (Some b_preload, s2) \<Rightarrow>
     (case PHYSFS_readAll s2 2 of (None, s3) \<Rightarrow> (None, s3) | (Some b_archive, s3) \<Rightarrow>
     (case PHYSFS_readAll s3 4 of (None, s4) \<Rightarrow> (None, s4) | (Some b_offset, s4) \<Rightarrow>
     (case PHYSFS_readAll s4 4 of (None, s5) \<Rightarrow> (None, s5) | (Some b_size, s5) \<Rightarrow>
     (case PHYSFS_readAll s5 2 of (None, s6) \<Rightarrow> (None, s6) | (Some b_terminator, s6) \<Rightarrow>
        (Some \<lparr>crc = native host b_crc, preload = native host b_preload,
                archive = native host b_archive, offset = native host b_offset,
                esize = native host b_size, terminator = native host b_terminator\<rparr>,
         s6)))))))"

text \<open>
  \<open>snprintf(path, sizeof(path), "%s%c%s%c%s", dir, '/', name, '.', ext)\<close> with
  \<open>sizeof(path) = 1024\<close>: at most 1023 bytes of the formatted text are stored.
\<close>

definition vpk_path :: "byte list \<Rightarrow> byte list \<Rightarrow> byte list \<Rightarrow> byte list" where
  "vpk_path dir name ext =
     take 1023 (c_str dir @ [of_char (CHR ''/'')] @ c_str name @ [of_char (CHR ''.'')] @ c_str ext)"

lemma vpk_read_entry_Some:
  assumes "vpk_read_entry host s = (Some e, s')"
  shows "s' = s\<lparr>cursor := cursor s + 18\<rparr> \<and> cursor s + 18 \<le> length (stream s)"
  using assms unfolding vpk_read_entry_def
  by (auto split: prod.splits option.splits dest!: PHYSFS_readAll_Some)

text \<open>
  The three nested \<open>while (1)\<close> loops of lines 71 to 106, one function each. A \<open>break\<close>
  of an inner loop continues the enclosing one. The arrays \<open>ext\<close>, \<open>dir\<close> and \<open>name\<close> hold
  what the last call of \<open>vpkReadString\<close> stored in them. \<open>path\<close> is assembled and never
  used, and nothing is added to the registry: the loops return the \<open>int\<close> and the machine.
  \<open>BAIL_IF(c, e, r)\<close> sets the error code \<open>e\<close> and returns \<open>r\<close> when \<open>c\<close> holds.
\<close>

function vpk_ext_loop :: "byteorder \<Rightarrow> machine \<Rightarrow> int \<times> machine"
  and vpk_dir_loop :: "byteorder \<Rightarrow> byte list \<Rightarrow> machine \<Rightarrow> int \<times> machine"
  and vpk_name_loop :: "byteorder \<Rightarrow> byte list \<Rightarrow> byte list \<Rightarrow> machine \<Rightarrow> int \<times> machine"
where
  "vpk_ext_loop host s =
     (case vpkReadString s 256 of (r, ext, s1) \<Rightarrow>
        if r = 0 then (0, s1)
        else if hd ext = 0 then (1, s1)
        else vpk_dir_loop host ext s1)"
| "vpk_dir_loop host ext s =
     (case vpkReadString s 256 of (r, dir, s1) \<Rightarrow>
        if r = 0 then (0, s1)
        else if hd dir = 0 then vpk_ext_loop host s1
        else vpk_name_loop host ext dir s1)"
| "vpk_name_loop host ext dir s =
     (case vpkReadString s 256 of (r, name, s1) \<Rightarrow>
        if r = 0 then (0, s1)
        else if hd name = 0 then vpk_dir_loop host ext s1
        else
          (let path = vpk_path dir name ext in
           case vpk_read_entry host s1 of
             (None, s2) \<Rightarrow> (0, s2)
           | (Some entry, s2) \<Rightarrow>
               if terminator entry \<noteq> 0xFFFF then (0, s2\<lparr>errcode := PHYSFS_ERR_CORRUPT\<rparr>)
               else vpk_name_loop host ext dir s2))"
  by pat_completeness auto
termination
proof (relation "measure (\<lambda>x. case x of
          Inl (host, s) \<Rightarrow> length (stream s) - cursor s
        | Inr (Inl (host, ext, s)) \<Rightarrow> length (stream s) - cursor s
        | Inr (Inr (host, ext, dir, s)) \<Rightarrow> length (stream s) - cursor s)", goal_cases)
  case 1
  show ?case by simp
next
  case (2 host s r y ext s1)
  then show ?case using vpkReadString_advances [of s 256 r ext s1] by auto
next
  case (3 host ext s r y dir s1)
  then show ?case using vpkReadString_advances [of s 256 r dir s1] by auto
next
  case (4 host ext s r y dir s1)
  then show ?case using vpkReadString_advances [of s 256 r dir s1] by auto
next
  case (5 host ext dir s r y name s1)
  then show ?case using vpkReadString_advances [of s 256 r name s1] by auto
next
  case (6 host ext dir s r y name s1 path e s2 entry)
  then show ?case
    using vpkReadString_advances [of s 256 r name s1]
      vpk_read_entry_Some [of host s1 entry s2]
    by auto
qed

text \<open>
  \<open>vpkLoadEntries(io, count, arc)\<close> of lines 55 to 109: \<open>count\<close> and \<open>arc\<close> are not used, and
  the registry is what it was.
\<close>

definition vpkLoadEntries ::
  "byteorder \<Rightarrow> machine \<Rightarrow> 32 word \<Rightarrow> UNPKinfo \<Rightarrow> int \<times> UNPKinfo \<times> machine" where
  "vpkLoadEntries host s count arc = (case vpk_ext_loop host s of (r, s') \<Rightarrow> (r, arc, s'))"

subsection \<open>The second definition of \<open>vpkLoadEntries\<close>: the flat table\<close>

text \<open>
  Lines 111 to 128 define \<open>vpkLoadEntries\<close> again, for a table of \<open>count\<close> records of 64
  bytes. The loop counter \<open>i\<close> is a \<open>PHYSFS_uint32\<close>. \<open>UNPK_addEntry\<close> is called with
  \<open>isdir = 0\<close> and the two times \<open>-1\<close>, which the registry of the spec does not record.
\<close>

lemma word32_succ:
  "(i::32 word) < count \<Longrightarrow> unat (i + 1) = Suc (unat i)"
  by unat_arith

lemma word32_succ_measure:
  "(i::32 word) < count \<Longrightarrow> unat count - unat (i + 1) < unat count - unat i"
  by (simp add: word32_succ word_less_nat_alt)

function vpkLoadEntries_flat_loop ::
  "byteorder \<Rightarrow> machine \<Rightarrow> 32 word \<Rightarrow> UNPKinfo \<Rightarrow> 32 word \<Rightarrow> int \<times> UNPKinfo \<times> machine" where
  "vpkLoadEntries_flat_loop host s count arc i =
     (if i < count then
        (case PHYSFS_readAll s 56 of (None, s1) \<Rightarrow> (0, arc, s1) | (Some name, s1) \<Rightarrow>
        (case PHYSFS_readAll s1 4 of (None, s2) \<Rightarrow> (0, arc, s2) | (Some b_pos, s2) \<Rightarrow>
        (case PHYSFS_readAll s2 4 of (None, s3) \<Rightarrow> (0, arc, s3) | (Some b_size, s3) \<Rightarrow>
          (let size = PHYSFS_swapULE32 host (native host b_size);
               pos = PHYSFS_swapULE32 host (native host b_pos)
           in case UNPK_addEntry arc name pos size of
                None \<Rightarrow> (0, arc, s3)
              | Some arc' \<Rightarrow> vpkLoadEntries_flat_loop host s3 count arc' (i + 1)))))
      else (1, arc, s))"
  by pat_completeness auto
termination
  by (relation "measure (\<lambda>(host, s, count, arc, i). unat count - unat i)")
     (auto simp: word32_succ_measure)

definition vpkLoadEntries_flat ::
  "byteorder \<Rightarrow> machine \<Rightarrow> 32 word \<Rightarrow> UNPKinfo \<Rightarrow> int \<times> UNPKinfo \<times> machine" where
  "vpkLoadEntries_flat host s count arc = vpkLoadEntries_flat_loop host s count arc 0"

subsection \<open>\<open>VPK_openArchive\<close>\<close>

text \<open>
  What a call of \<open>VPK_openArchive\<close> leaves behind: the pointer it returns (\<open>None\<close> is
  NULL), the value of \<open>*claimed\<close>, the registry it gave to \<open>UNPK_abandonArchive\<close> if it
  did, and the machine.
\<close>

record open_result =
  ret :: "UNPKinfo option"
  claimed :: bool
  abandoned :: "UNPKinfo option"
  mach :: machine

text \<open>A \<open>return NULL\<close> before any registry exists.\<close>

definition open_fail :: "bool \<Rightarrow> machine \<Rightarrow> open_result" where
  "open_fail c s = \<lparr>ret = None, claimed = c, abandoned = None, mach = s\<rparr>"

text \<open>
  The file defines \<open>vpkLoadEntries\<close> twice and \<open>VPK_openArchive\<close> calls it by that name, so
  the callee is the parameter \<open>load\<close>. The variables \<open>val\<close>, \<open>pos\<close> and \<open>count\<close> are used
  without a declaration; they hold results of \<open>PHYSFS_swapULE32\<close> and \<open>count\<close> is passed as
  a \<open>PHYSFS_uint32\<close>, so they are 32-bit words. \<open>name\<close> is not used. \<open>claimed0\<close> is the
  value of \<open>*claimed\<close> at the call.

  \<open>VPK_openArchive_entries\<close> is the end of the function, lines 164 to 176: the seek to the
  directory table, the new registry and the call of \<open>vpkLoadEntries\<close>.
  \<open>VPK_openArchive\<close> is the function from its first line and ends in it.
\<close>

definition VPK_openArchive_entries ::
  "(machine \<Rightarrow> 32 word \<Rightarrow> UNPKinfo \<Rightarrow> int \<times> UNPKinfo \<times> machine) \<Rightarrow>
     machine \<Rightarrow> 32 word \<Rightarrow> 32 word \<Rightarrow> bool \<Rightarrow> open_result" where
  "VPK_openArchive_entries load s pos count c =
     (case io_seek s (unat pos) of
        (False, s1) \<Rightarrow> open_fail c s1
      | (True, s1) \<Rightarrow>
          (case UNPK_openArchive s1 of
             None \<Rightarrow> open_fail c s1
           | Some unpkarc \<Rightarrow>
               (case load s1 count unpkarc of (r, arc', s2) \<Rightarrow>
                  if r = 0
                  then \<lparr>ret = None, claimed = c, abandoned = Some arc', mach = s2\<rparr>
                  else \<lparr>ret = Some arc', claimed = c, abandoned = None, mach = s2\<rparr>)))"

definition VPK_openArchive ::
  "byteorder \<Rightarrow> (machine \<Rightarrow> 32 word \<Rightarrow> UNPKinfo \<Rightarrow> int \<times> UNPKinfo \<times> machine) \<Rightarrow>
     machine \<Rightarrow> string \<Rightarrow> int \<Rightarrow> bool \<Rightarrow> open_result" where
  "VPK_openArchive host load s name forWriting claimed0 =
     (if forWriting \<noteq> 0 then open_fail claimed0 (s\<lparr>errcode := PHYSFS_ERR_READ_ONLY\<rparr>)
      else
     (case PHYSFS_readAll s 4 of (None, s1) \<Rightarrow> open_fail claimed0 s1 | (Some b_magic, s1) \<Rightarrow>
        (let magic = PHYSFS_swapULE32 host (native host b_magic) in
         if magic \<noteq> VPK_SIG then open_fail claimed0 (s1\<lparr>errcode := PHYSFS_ERR_UNSUPPORTED\<rparr>)
         else
     (case PHYSFS_readAll s1 4 of (None, s2) \<Rightarrow> open_fail claimed0 s2 | (Some b_version, s2) \<Rightarrow>
        (let version = PHYSFS_swapULE32 host (native host b_version) in
         if version \<noteq> 1 \<and> version \<noteq> 2
         then open_fail claimed0 (s2\<lparr>errcode := PHYSFS_ERR_UNSUPPORTED\<rparr>)
         else
     (case PHYSFS_readAll s2 4 of (None, s3) \<Rightarrow> open_fail True s3 | (Some val, s3) \<Rightarrow>
        (let pos = PHYSFS_swapULE32 host (native host val) in
     (case PHYSFS_readAll s3 4 of (None, s4) \<Rightarrow> open_fail True s4 | (Some val, s4) \<Rightarrow>
        (let count = PHYSFS_swapULE32 host (native host val) in
         if count mod 64 \<noteq> 0 then open_fail True (s4\<lparr>errcode := PHYSFS_ERR_CORRUPT\<rparr>)
         else
          (let count = count div 64 in
           VPK_openArchive_entries load s4 pos count True))))))))))"

section \<open>Example archives\<close>

text \<open>
  Two archives of the flat layout, used to run the entry point: a header announcing
  two records of 64 bytes followed by one record and three more bytes, and a header
  announcing one record followed by that record. The record names \<open>a.txt\<close> at position 128
  with size 64.
\<close>

definition truncated_table :: "byte list" where
  "truncated_table =
     [0x34, 0x12, 0xAA, 0x55, 1, 0, 0, 0, 16, 0, 0, 0, 128, 0, 0, 0]
     @ [97, 46, 116, 120, 116] @ replicate 51 0 @ [128, 0, 0, 0, 64, 0, 0, 0]
     @ [98, 46, 116]"

definition whole_table :: "byte list" where
  "whole_table =
     [0x34, 0x12, 0xAA, 0x55, 1, 0, 0, 0, 16, 0, 0, 0, 64, 0, 0, 0]
     @ [97, 46, 116, 120, 116] @ replicate 51 0 @ [128, 0, 0, 0, 64, 0, 0, 0]"

text \<open>
  The archive of the spec's scenario: the header with directory offset 16 and a directory
  length whose low byte is the parameter, then the tree \<open>txt\<close>, \<open>models/props\<close>, \<open>chair\<close>, one
  record (crc 0, preload 0, archive index -1, offset 128, size 64) whose terminator bytes
  are the parameters of \<open>chair_tree\<close>, and the three empty strings.
\<close>

definition bytes_of :: "string \<Rightarrow> byte list" where
  "bytes_of str = map of_char str"

definition chair_tree :: "byte \<Rightarrow> byte \<Rightarrow> byte list" where
  "chair_tree t0 t1 =
     bytes_of ''txt'' @ [0] @ bytes_of ''models/props'' @ [0] @ bytes_of ''chair'' @ [0]
     @ [0, 0, 0, 0,  0, 0,  0xFF, 0xFF,  128, 0, 0, 0,  64, 0, 0, 0,  t0, t1]
     @ [0, 0, 0]"

definition chair_archive :: "byte \<Rightarrow> byte list" where
  "chair_archive dirlen =
     [0x34, 0x12, 0xAA, 0x55,  1, 0, 0, 0,  16, 0, 0, 0,  dirlen, 0, 0, 0]
     @ chair_tree 0xFF 0xFF"


section \<open>Properties\<close>

subsection \<open>Shared facts\<close>

text \<open>
  A 32-bit variable filled from the stream and passed through \<open>PHYSFS_swapULE32\<close> holds the
  little-endian reading of its four bytes on either host.
\<close>

lemma bytes_of_le_word:
  "ucast (le_word [d, c, b, a] :: 32 word) = d"
  "ucast (drop_bit 8 (le_word [d, c, b, a] :: 32 word)) = c"
  "ucast (drop_bit 16 (le_word [d, c, b, a] :: 32 word)) = b"
  "ucast (drop_bit 24 (le_word [d, c, b, a] :: 32 word)) = a"
  by (rule bit_word_eqI; auto simp add: bit_simps dest: bit_imp_le_length)+

lemma PHYSFS_swapULE32_native:
  "PHYSFS_swapULE32 host (native host [a, b, c, d]) = le_word [a, b, c, d]"
proof (cases host)
  case PHYSFS_LIL_ENDIAN
  then show ?thesis by (simp add: PHYSFS_swapULE32_def native_def)
next
  case PHYSFS_BIG_ENDIAN
  have "PHYSFS_Swap32 (le_word [d, c, b, a]) = le_word [a, b, c, d]"
    unfolding PHYSFS_Swap32_def bytes_of_le_word ..
  with PHYSFS_BIG_ENDIAN show ?thesis by (simp add: PHYSFS_swapULE32_def native_def)
qed

lemma read4:
  assumes "drop (cursor s) (stream s) = a # b # c # d # rest"
  shows "PHYSFS_readAll s 4 = (Some [a, b, c, d], s\<lparr>cursor := cursor s + 4\<rparr>)"
    and "drop (cursor s + 4) (stream s) = rest"
proof -
  have "length (drop (cursor s) (stream s)) = 4 + length rest"
    using assms by simp
  then have le: "cursor s + 4 \<le> length (stream s)" by simp
  then show "PHYSFS_readAll s 4 = (Some [a, b, c, d], s\<lparr>cursor := cursor s + 4\<rparr>)"
    using assms by (simp add: PHYSFS_readAll_def)
  have "drop (cursor s + 4) (stream s) = drop 4 (drop (cursor s) (stream s))"
    by (simp add: add.commute)
  then show "drop (cursor s + 4) (stream s) = rest" using assms by simp
qed

lemma claimed_VPK_openArchive_entries:
  "claimed (VPK_openArchive_entries load s pos count c) = c"
  by (simp add: VPK_openArchive_entries_def open_fail_def split: prod.splits bool.splits option.splits)

lemma vpkReadString_loop_cstr:
  "drop (cursor s) (stream s) = str @ 0 # rest \<Longrightarrow> 0 \<notin> set str \<Longrightarrow>
   pos + length str < maxlen \<Longrightarrow>
   vpkReadString_loop s dest maxlen pos =
     (1, dest @ str @ [0], s\<lparr>cursor := cursor s + length str + 1\<rparr>)"
proof (induction str arbitrary: s dest pos)
  case Nil
  then have "cursor s < length (stream s)" and "stream s ! cursor s = 0"
    by (metis drop_eq_Nil not_le list.distinct(1) append_Nil,
        metis append_Nil nth_via_drop)
  with Nil show ?case by (simp add: vpkReadString_loop_step [of s])
next
  case (Cons a str)
  from Cons.prems have inb: "cursor s < length (stream s)" and hd: "stream s ! cursor s = a"
    by (metis drop_eq_Nil not_le list.distinct(1) append_Cons,
        metis append_Cons nth_via_drop)
  let ?s1 = "s\<lparr>cursor := Suc (cursor s)\<rparr>"
  have "drop (Suc (cursor s)) (stream s) = str @ 0 # rest"
    using Cons.prems(1) by (metis drop_Suc tl_drop list.sel(3) append_Cons)
  then have d: "drop (cursor ?s1) (stream ?s1) = str @ 0 # rest" by simp
  have "vpkReadString_loop ?s1 (dest @ [a]) maxlen (Suc pos) =
          (1, (dest @ [a]) @ str @ [0], ?s1\<lparr>cursor := cursor ?s1 + length str + 1\<rparr>)"
    using Cons.prems by (intro Cons.IH [OF d]) auto
  then show ?case
    using Cons.prems inb hd by (simp add: vpkReadString_loop_step [of s])
qed

lemma vpkReadString_cstr:
  "drop (cursor s) (stream s) = str @ 0 # rest \<Longrightarrow> 0 \<notin> set str \<Longrightarrow>
   length str < maxlen \<Longrightarrow>
   vpkReadString s maxlen = (1, str @ [0], s\<lparr>cursor := cursor s + length str + 1\<rparr>)"
  using vpkReadString_loop_cstr [of s str rest 0 maxlen "[]"]
  by (simp add: vpkReadString_def)

lemma vpkReadString_loop_no_nul:
  "0 \<notin> set (take (maxlen - pos) (drop (cursor s) (stream s))) \<Longrightarrow>
   fst (vpkReadString_loop s dest maxlen pos) = 0"
proof (induction s dest maxlen pos rule: vpkReadString_loop.induct)
  case (1 s dest maxlen pos)
  show ?case
  proof (cases "pos < maxlen \<and> cursor s < length (stream s)")
    case False
    then show ?thesis by (auto simp: vpkReadString_loop_step [of s dest maxlen pos])
  next
    case True
    then obtain k where k: "maxlen - pos = Suc k" by (cases "maxlen - pos") auto
    have dr: "drop (cursor s) (stream s) = stream s ! cursor s # drop (Suc (cursor s)) (stream s)"
      using True by (simp add: Cons_nth_drop_Suc)
    from "1.prems" have nz: "stream s ! cursor s \<noteq> 0"
      and rest: "0 \<notin> set (take k (drop (Suc (cursor s)) (stream s)))"
      unfolding k by (subst (asm) dr, simp)+
    let ?s1 = "s\<lparr>cursor := Suc (cursor s)\<rparr>"
    have rd: "PHYSFS_readAll s 1 = (Some [stream s ! cursor s], ?s1)"
      using True by (simp add: PHYSFS_readAll_1)
    have hd: "stream s ! cursor s = hd [stream s ! cursor s]" by simp
    have "fst (vpkReadString_loop ?s1 (dest @ [stream s ! cursor s]) maxlen (pos + 1)) = 0"
    proof (rule "1.IH" [OF _ rd [symmetric] refl hd refl])
      show "pos < maxlen" using True by simp
      show "stream s ! cursor s \<noteq> 0" by (rule nz)
      have "maxlen - (pos + 1) = k" using k by simp
      then show "0 \<notin> set (take (maxlen - (pos + 1)) (drop (cursor ?s1) (stream ?s1)))"
        using rest by simp
    qed
    then show ?thesis
      using True nz by (simp add: vpkReadString_loop_step [of s dest maxlen pos])
  qed
qed

lemma vpkReadString_no_nul:
  "0 \<notin> set (take maxlen (drop (cursor s) (stream s))) \<Longrightarrow> fst (vpkReadString s maxlen) = 0"
  using vpkReadString_loop_no_nul [of maxlen 0 s "[]"] by (simp add: vpkReadString_def)

lemma ret_abandoned_VPK_openArchive_entries:
  "ret (VPK_openArchive_entries load s pos count c) = None \<Longrightarrow>
   abandoned (VPK_openArchive_entries load s pos count c) = None \<Longrightarrow>
   errcode (mach (VPK_openArchive_entries load s pos count c)) = PHYSFS_ERR_PAST_EOF"
  by (auto simp: VPK_openArchive_entries_def open_fail_def io_seek_def UNPK_openArchive_def
      split: prod.splits bool.splits option.splits if_splits)

lemma VPK_openArchive_header:
  assumes "drop (cursor s) (stream s) =
             m0 # m1 # m2 # m3 # v0 # v1 # v2 # v3 # p0 # p1 # p2 # p3 # n0 # n1 # n2 # n3 # rest"
    and "(le_word [m0, m1, m2, m3] :: 32 word) = VPK_SIG"
    and "(le_word [v0, v1, v2, v3] :: 32 word) = 1 \<or> (le_word [v0, v1, v2, v3] :: 32 word) = 2"
  shows "VPK_openArchive host load s name 0 claimed0 =
           (if (le_word [n0, n1, n2, n3] :: 32 word) mod 64 \<noteq> 0
            then \<lparr>ret = None, claimed = True, abandoned = None,
                  mach = s\<lparr>cursor := cursor s + 16, errcode := PHYSFS_ERR_CORRUPT\<rparr>\<rparr>
            else VPK_openArchive_entries load (s\<lparr>cursor := cursor s + 16\<rparr>)
                   (le_word [p0, p1, p2, p3]) (le_word [n0, n1, n2, n3] div 64) True)"
proof -
  let ?s1 = "s\<lparr>cursor := cursor s + 4\<rparr>"
  let ?s2 = "s\<lparr>cursor := cursor s + 8\<rparr>"
  let ?s3 = "s\<lparr>cursor := cursor s + 12\<rparr>"
  let ?s4 = "s\<lparr>cursor := cursor s + 16\<rparr>"
  have r1: "PHYSFS_readAll s 4 = (Some [m0, m1, m2, m3], ?s1)"
    and d1: "drop (cursor ?s1) (stream ?s1) =
               v0 # v1 # v2 # v3 # p0 # p1 # p2 # p3 # n0 # n1 # n2 # n3 # rest"
    using read4 [OF assms(1)] by simp_all
  have r2: "PHYSFS_readAll ?s1 4 = (Some [v0, v1, v2, v3], ?s2)"
    and d2: "drop (cursor ?s2) (stream ?s2) = p0 # p1 # p2 # p3 # n0 # n1 # n2 # n3 # rest"
    using read4 [OF d1] by (simp_all add: add.commute)
  have r3: "PHYSFS_readAll ?s2 4 = (Some [p0, p1, p2, p3], ?s3)"
    and d3: "drop (cursor ?s3) (stream ?s3) = n0 # n1 # n2 # n3 # rest"
    using read4 [OF d2] by (simp_all add: add.commute)
  have r4: "PHYSFS_readAll ?s3 4 = (Some [n0, n1, n2, n3], ?s4)"
    using read4 [OF d3] by (simp_all add: add.commute)
  show ?thesis
    using assms(2,3) r1 r2 r3 r4
    by (auto simp add: VPK_openArchive_def open_fail_def PHYSFS_swapULE32_native Let_def)
qed

declare vpk_ext_loop.simps [simp del] vpk_dir_loop.simps [simp del]
  vpk_name_loop.simps [simp del]

lemma vpk_loops_no_nul:
  assumes "0 \<notin> set (take 256 (drop (cursor s) (stream s)))"
  shows "fst (vpk_ext_loop host s) = 0"
    and "fst (vpk_dir_loop host ext s) = 0"
    and "fst (vpk_name_loop host ext dir s) = 0"
proof -
  obtain r buf s1 where rd: "vpkReadString s 256 = (r, buf, s1)"
    by (cases "vpkReadString s 256") auto
  with vpkReadString_no_nul [OF assms] have "r = 0" by simp
  with rd show "fst (vpk_ext_loop host s) = 0"
    and "fst (vpk_dir_loop host ext s) = 0"
    and "fst (vpk_name_loop host ext dir s) = 0"
    by (simp_all add: vpk_ext_loop.simps [of host s] vpk_dir_loop.simps [of host ext s]
        vpk_name_loop.simps [of host ext dir s])
qed

lemma VPK_openArchive_entries_shape:
  "(\<forall>h. ret (VPK_openArchive_entries load s pos count c) = Some h \<longrightarrow>
        abandoned (VPK_openArchive_entries load s pos count c) = None
      \<and> (\<exists>s1 rv. rv \<noteq> 0 \<and>
            load s1 count [] = (rv, h, mach (VPK_openArchive_entries load s pos count c))))
   \<and> (\<forall>a. abandoned (VPK_openArchive_entries load s pos count c) = Some a \<longrightarrow>
        ret (VPK_openArchive_entries load s pos count c) = None
      \<and> (\<exists>s1. load s1 count [] = (0, a, mach (VPK_openArchive_entries load s pos count c))))"
proof (cases "io_seek s (unat pos)")
  case (Pair ok s1)
  show ?thesis
  proof (cases ok)
    case False
    with Pair show ?thesis by (simp add: VPK_openArchive_entries_def open_fail_def)
  next
    case True
    obtain rv arc' s2 where l: "load s1 count [] = (rv, arc', s2)"
      by (cases "load s1 count []") auto
    with Pair True show ?thesis
      by (cases "rv = 0")
        (auto simp: VPK_openArchive_entries_def UNPK_openArchive_def)
  qed
qed

lemma VPK_openArchive_shape:
  "(ret (VPK_openArchive host load s name forWriting claimed0) = None
      \<and> abandoned (VPK_openArchive host load s name forWriting claimed0) = None)
   \<or> (\<exists>s4 pos count. VPK_openArchive host load s name forWriting claimed0 =
         VPK_openArchive_entries load s4 pos count True)"
  by (simp add: VPK_openArchive_def open_fail_def Let_def split: prod.splits option.splits)
    blast








lemma le_word_16_ffff:
  "(le_word [a, b] :: 16 word) = 0xFFFF \<longleftrightarrow> a = 0xFF \<and> b = 0xFF"
proof
  assume e: "(le_word [a, b] :: 16 word) = 0xFFFF"
  have "ucast (le_word [a, b] :: 16 word) = a"
    by (rule bit_word_eqI) (auto simp add: bit_simps dest: bit_imp_le_length)
  moreover have "ucast (drop_bit 8 (le_word [a, b] :: 16 word)) = b"
    by (rule bit_word_eqI) (auto simp add: bit_simps dest: bit_imp_le_length)
  ultimately show "a = 0xFF \<and> b = 0xFF" unfolding e by simp
next
  assume "a = 0xFF \<and> b = 0xFF"
  then show "(le_word [a, b] :: 16 word) = 0xFFFF" by simp
qed

lemma native_16_ffff:
  "(native host [a, b] :: 16 word) = 0xFFFF \<longleftrightarrow> (le_word [a, b] :: 16 word) = 0xFFFF"
  by (cases host) (auto simp only: native_def byteorder.case rev.simps append.simps le_word_16_ffff)

lemma vpk_read_entry_terminator:
  assumes "drop (cursor s) (stream s) = info @ t0 # t1 # rest" and "length info = 16"
  shows "\<exists>e. vpk_read_entry host s = (Some e, s\<lparr>cursor := cursor s + 18\<rparr>)
             \<and> terminator e = native host [t0, t1]"
proof -
  have "length (drop (cursor s) (stream s)) = 18 + length rest"
    using assms by simp
  then have le: "cursor s + 18 \<le> length (stream s)" by simp
  have "drop (cursor s + 16) (stream s) = drop 16 (drop (cursor s) (stream s))"
    by (simp add: add.commute)
  then have t: "take 2 (drop (16 + cursor s) (stream s)) = [t0, t1]"
    using assms by (simp add: add.commute)
  show ?thesis
    using le t by (simp add: vpk_read_entry_def PHYSFS_readAll_def)
qed

lemma vpk_name_loop_corrupt:
  assumes "drop (cursor s) (stream s) = name @ 0 # info @ t0 # t1 # rest"
    and "name \<noteq> []" and "0 \<notin> set name" and "length name < 256"
    and "length info = 16"
    and "(le_word [t0, t1] :: 16 word) \<noteq> 0xFFFF"
  shows "vpk_name_loop host ext dir s =
           (0, s\<lparr>cursor := cursor s + length name + 19, errcode := PHYSFS_ERR_CORRUPT\<rparr>)"
proof -
  let ?s1 = "s\<lparr>cursor := cursor s + length name + 1\<rparr>"
  have rd: "vpkReadString s 256 = (1, name @ [0], ?s1)"
    using vpkReadString_cstr [OF assms(1,3,4)] .
  have hd: "hd (name @ [0]) \<noteq> 0" using assms(2,3) by (cases name) auto
  have "drop (cursor s + length name + 1) (stream s) =
          drop (length name + 1) (drop (cursor s) (stream s))"
    by (simp add: add.commute add.left_commute)
  then have d1: "drop (cursor ?s1) (stream ?s1) = info @ t0 # t1 # rest"
    using assms(1) by simp
  from vpk_read_entry_terminator [OF d1 assms(5), of host]
  obtain e where e: "vpk_read_entry host ?s1 = (Some e, ?s1\<lparr>cursor := cursor ?s1 + 18\<rparr>)"
    and t: "terminator e = native host [t0, t1]" by blast
  have bad: "terminator e \<noteq> 0xFFFF" using assms(6) t native_16_ffff by simp
  show ?thesis
    using rd hd e bad
    by (subst vpk_name_loop.simps) (simp add: Let_def)
qed

lemma vpk_loop_descend:
  assumes "drop (cursor s) (stream s) = str @ 0 # rest"
    and "str \<noteq> []" and "0 \<notin> set str" and "length str < 256"
  shows "vpk_ext_loop host s =
           vpk_dir_loop host (str @ [0]) (s\<lparr>cursor := cursor s + length str + 1\<rparr>)"
    and "vpk_dir_loop host ext s =
           vpk_name_loop host ext (str @ [0]) (s\<lparr>cursor := cursor s + length str + 1\<rparr>)"
    and "drop (cursor s + length str + 1) (stream s) = rest"
proof -
  have rd: "vpkReadString s 256 = (1, str @ [0], s\<lparr>cursor := cursor s + length str + 1\<rparr>)"
    using vpkReadString_cstr [OF assms(1,3,4)] .
  have hd: "hd (str @ [0]) \<noteq> 0" using assms(2,3) by (cases str) auto
  show "vpk_ext_loop host s =
           vpk_dir_loop host (str @ [0]) (s\<lparr>cursor := cursor s + length str + 1\<rparr>)"
    using rd hd by (subst vpk_ext_loop.simps) simp
  show "vpk_dir_loop host ext s =
           vpk_name_loop host ext (str @ [0]) (s\<lparr>cursor := cursor s + length str + 1\<rparr>)"
    using rd hd by (subst vpk_dir_loop.simps) simp
  have "drop (cursor s + length str + 1) (stream s) =
          drop (length str + 1) (drop (cursor s) (stream s))"
    by (simp add: add.commute add.left_commute)
  then show "drop (cursor s + length str + 1) (stream s) = rest"
    using assms(1) by simp
qed

text \<open>
  The first \<open>vpkLoadEntries\<close> hands the registry back as it got it, so open-archive with it
  returns NULL or an empty registry on every stream.
\<close>

lemma vpkLoadEntries_registers_nothing:
  "fst (snd (vpkLoadEntries host s count arc)) = arc"
  by (simp add: vpkLoadEntries_def split: prod.splits)

lemma VPK_openArchive_tree_registers_nothing:
  "ret (VPK_openArchive host (vpkLoadEntries host') s name forWriting claimed0) = None
   \<or> ret (VPK_openArchive host (vpkLoadEntries host') s name forWriting claimed0) = Some []"
proof (cases "ret (VPK_openArchive host (vpkLoadEntries host') s name forWriting claimed0)")
  case None
  then show ?thesis by simp
next
  case (Some h)
  with VPK_openArchive_shape [of host "vpkLoadEntries host'" s name forWriting claimed0]
  obtain s4 pos count where
    r: "ret (VPK_openArchive_entries (vpkLoadEntries host') s4 pos count True) = Some h"
    by auto
  from VPK_openArchive_entries_shape [of "vpkLoadEntries host'" s4 pos count True] r
  obtain s1 rv m where "vpkLoadEntries host' s1 count [] = (rv, h, m)" by blast
  with vpkLoadEntries_registers_nothing [of host' s1 count "[]"] have "h = []" by simp
  with Some show ?thesis by simp
qed

subsection \<open>The entry point\<close>

text \<open>
  Claim C9. For every stream, archive name and nonzero write-intent flag, open-archive
  fails with the read-only error before it reads any byte of the stream: it returns NULL,
  sets the error code \<open>PHYSFS_ERR_READ_ONLY\<close>, and leaves the stream, its cursor and
  \<open>*claimed\<close> as they were, whatever the stream holds.
\<close>

theorem VPK_openArchive_write_intent:
  "forWriting \<noteq> 0 \<Longrightarrow>
     VPK_openArchive host load s name forWriting claimed0 =
       \<lparr>ret = None, claimed = claimed0, abandoned = None,
        mach = s\<lparr>errcode := PHYSFS_ERR_READ_ONLY\<rparr>\<rparr>"
  by (simp add: VPK_openArchive_def open_fail_def)

theorem VPK_openArchive_write_intent_witness:
  "(1::int) \<noteq> 0 \<and>
   VPK_openArchive PHYSFS_LIL_ENDIAN (vpkLoadEntries PHYSFS_LIL_ENDIAN)
       \<lparr>stream = [0x34, 0x12, 0xAA, 0x55, 1, 0, 0, 0], cursor = 0, errcode = PHYSFS_ERR_OK\<rparr>
       ''a.vpk'' 1 False =
     \<lparr>ret = None, claimed = False, abandoned = None,
      mach = \<lparr>stream = [0x34, 0x12, 0xAA, 0x55, 1, 0, 0, 0], cursor = 0,
               errcode = PHYSFS_ERR_READ_ONLY\<rparr>\<rparr>"
  using VPK_openArchive_write_intent [of 1 PHYSFS_LIL_ENDIAN "vpkLoadEntries PHYSFS_LIL_ENDIAN"
      "\<lparr>stream = [0x34, 0x12, 0xAA, 0x55, 1, 0, 0, 0], cursor = 0, errcode = PHYSFS_ERR_OK\<rparr>"
      "''a.vpk''" False]
  by simp

text \<open>
  Claim C6. For every stream whose next four bytes, read as a little-endian number, are not
  \<open>0x55AA1234\<close>, open-archive returns NULL with \<open>*claimed\<close> left as it was and with an
  error code that is never \<open>PHYSFS_ERR_CORRUPT\<close>; opened for reading, the error code is
  \<open>PHYSFS_ERR_UNSUPPORTED\<close>, the mismatch of the format, and exactly the four bytes are
  consumed. (With write intent the read-only error of claim C9 comes first.)
\<close>

theorem VPK_openArchive_magic_mismatch:
  assumes "drop (cursor s) (stream s) = m0 # m1 # m2 # m3 # rest"
    and "(le_word [m0, m1, m2, m3] :: 32 word) \<noteq> VPK_SIG"
  shows "ret (VPK_openArchive host load s name forWriting claimed0) = None
       \<and> claimed (VPK_openArchive host load s name forWriting claimed0) = claimed0
       \<and> errcode (mach (VPK_openArchive host load s name forWriting claimed0))
           \<noteq> PHYSFS_ERR_CORRUPT
       \<and> (forWriting = 0 \<longrightarrow>
            VPK_openArchive host load s name forWriting claimed0 =
              \<lparr>ret = None, claimed = claimed0, abandoned = None,
               mach = s\<lparr>cursor := cursor s + 4, errcode := PHYSFS_ERR_UNSUPPORTED\<rparr>\<rparr>)"
  using assms(2) read4(1) [OF assms(1)]
  by (simp add: VPK_openArchive_def open_fail_def PHYSFS_swapULE32_native)

theorem VPK_openArchive_magic_mismatch_witness:
  "drop (cursor \<lparr>stream = [0x50, 0x4B, 3, 4, 20, 0], cursor = 0, errcode = PHYSFS_ERR_OK\<rparr>)
        (stream \<lparr>stream = [0x50, 0x4B, 3, 4, 20, 0], cursor = 0, errcode = PHYSFS_ERR_OK\<rparr>)
     = 0x50 # 0x4B # 3 # 4 # [20, 0]
   \<and> (le_word [0x50, 0x4B, 3, 4] :: 32 word) \<noteq> VPK_SIG
   \<and> VPK_openArchive PHYSFS_BIG_ENDIAN (vpkLoadEntries PHYSFS_BIG_ENDIAN)
         \<lparr>stream = [0x50, 0x4B, 3, 4, 20, 0], cursor = 0, errcode = PHYSFS_ERR_OK\<rparr>
         ''a.zip'' 0 False =
       \<lparr>ret = None, claimed = False, abandoned = None,
        mach = \<lparr>stream = [0x50, 0x4B, 3, 4, 20, 0], cursor = 4,
                 errcode = PHYSFS_ERR_UNSUPPORTED\<rparr>\<rparr>"
proof -
  let ?s = "\<lparr>stream = [0x50, 0x4B, 3, 4, 20, 0], cursor = 0, errcode = PHYSFS_ERR_OK\<rparr>"
  have h1: "drop (cursor ?s) (stream ?s) = 0x50 # 0x4B # 3 # 4 # [20, 0]" by simp
  have h2: "(le_word [0x50, 0x4B, 3, 4] :: 32 word) \<noteq> VPK_SIG" by (simp add: VPK_SIG_def)
  show ?thesis
    using h1 h2 VPK_openArchive_magic_mismatch [OF h1 h2, of PHYSFS_BIG_ENDIAN
        "vpkLoadEntries PHYSFS_BIG_ENDIAN" "''a.zip''" 0 False]
    by simp
qed

text \<open>
  Claim C3, as stated: every stream whose first four bytes are the signature is marked as
  claimed, also when its version is neither 1 nor 2. The code sets \<open>*claimed\<close> after the
  check of the version: a stream with the signature and version 3 is refused with
  \<open>*claimed\<close> still unset.
\<close>

theorem VPK_openArchive_claim_counterexample:
  "(le_word [0x34, 0x12, 0xAA, 0x55] :: 32 word) = VPK_SIG
   \<and> VPK_openArchive PHYSFS_LIL_ENDIAN (vpkLoadEntries PHYSFS_LIL_ENDIAN)
         \<lparr>stream = [0x34, 0x12, 0xAA, 0x55, 3, 0, 0, 0, 16, 0, 0, 0, 0, 0, 0, 0, 0],
          cursor = 0, errcode = PHYSFS_ERR_OK\<rparr> ''a.vpk'' 0 False =
       \<lparr>ret = None, claimed = False, abandoned = None,
        mach = \<lparr>stream = [0x34, 0x12, 0xAA, 0x55, 3, 0, 0, 0, 16, 0, 0, 0, 0, 0, 0, 0, 0],
                 cursor = 8, errcode = PHYSFS_ERR_UNSUPPORTED\<rparr>\<rparr>"
  by code_simp

text \<open>
  Claim C3, amended. For every stream that starts with the signature and a readable
  version field, opened for reading: \<open>*claimed\<close> is set exactly when the version is 1 or 2,
  whatever happens afterwards; when the version is neither, open-archive returns NULL with
  \<open>PHYSFS_ERR_UNSUPPORTED\<close> after these eight bytes and leaves \<open>*claimed\<close> as it was, so
  the unsupported-version failure comes before the claim.
\<close>

theorem VPK_openArchive_claim_after_version:
  assumes "drop (cursor s) (stream s) = m0 # m1 # m2 # m3 # v0 # v1 # v2 # v3 # rest"
    and "(le_word [m0, m1, m2, m3] :: 32 word) = VPK_SIG"
  shows "claimed (VPK_openArchive host load s name 0 claimed0) =
           (if (le_word [v0, v1, v2, v3] :: 32 word) = 1
               \<or> (le_word [v0, v1, v2, v3] :: 32 word) = 2
            then True else claimed0)
       \<and> ((le_word [v0, v1, v2, v3] :: 32 word) \<noteq> 1
            \<and> (le_word [v0, v1, v2, v3] :: 32 word) \<noteq> 2 \<longrightarrow>
            VPK_openArchive host load s name 0 claimed0 =
              \<lparr>ret = None, claimed = claimed0, abandoned = None,
               mach = s\<lparr>cursor := cursor s + 8, errcode := PHYSFS_ERR_UNSUPPORTED\<rparr>\<rparr>)"
proof -
  let ?s1 = "s\<lparr>cursor := cursor s + 4\<rparr>"
  have r1: "PHYSFS_readAll s 4 = (Some [m0, m1, m2, m3], ?s1)"
    and d1: "drop (cursor ?s1) (stream ?s1) = v0 # v1 # v2 # v3 # rest"
    using read4 [OF assms(1)] by simp_all
  have r2: "PHYSFS_readAll ?s1 4 = (Some [v0, v1, v2, v3], ?s1\<lparr>cursor := cursor ?s1 + 4\<rparr>)"
    using read4(1) [OF d1] .
  show ?thesis
    using assms(2) r1 r2
    by (simp add: VPK_openArchive_def open_fail_def PHYSFS_swapULE32_native Let_def
        claimed_VPK_openArchive_entries split: prod.splits option.splits)
qed

theorem VPK_openArchive_claim_after_version_witness:
  "drop (cursor \<lparr>stream = [0x34, 0x12, 0xAA, 0x55, 3, 0, 0, 0, 9], cursor = 0,
                 errcode = PHYSFS_ERR_OK\<rparr>)
        (stream \<lparr>stream = [0x34, 0x12, 0xAA, 0x55, 3, 0, 0, 0, 9], cursor = 0,
                 errcode = PHYSFS_ERR_OK\<rparr>)
     = 0x34 # 0x12 # 0xAA # 0x55 # 3 # 0 # 0 # 0 # [9]
   \<and> (le_word [0x34, 0x12, 0xAA, 0x55] :: 32 word) = VPK_SIG
   \<and> (le_word [3, 0, 0, 0] :: 32 word) \<noteq> 1 \<and> (le_word [3, 0, 0, 0] :: 32 word) \<noteq> 2
   \<and> \<not> claimed (VPK_openArchive PHYSFS_LIL_ENDIAN (vpkLoadEntries_flat PHYSFS_LIL_ENDIAN)
         \<lparr>stream = [0x34, 0x12, 0xAA, 0x55, 3, 0, 0, 0, 9], cursor = 0,
          errcode = PHYSFS_ERR_OK\<rparr> ''a.vpk'' 0 False)
   \<and> VPK_openArchive PHYSFS_LIL_ENDIAN (vpkLoadEntries_flat PHYSFS_LIL_ENDIAN)
         \<lparr>stream = [0x34, 0x12, 0xAA, 0x55, 3, 0, 0, 0, 9], cursor = 0,
          errcode = PHYSFS_ERR_OK\<rparr> ''a.vpk'' 0 False =
       \<lparr>ret = None, claimed = False, abandoned = None,
        mach = \<lparr>stream = [0x34, 0x12, 0xAA, 0x55, 3, 0, 0, 0, 9], cursor = 8,
                 errcode = PHYSFS_ERR_UNSUPPORTED\<rparr>\<rparr>"
proof -
  let ?s = "\<lparr>stream = [0x34, 0x12, 0xAA, 0x55, 3, 0, 0, 0, 9], cursor = 0,
             errcode = PHYSFS_ERR_OK\<rparr>"
  have h1: "drop (cursor ?s) (stream ?s) = 0x34 # 0x12 # 0xAA # 0x55 # 3 # 0 # 0 # 0 # [9]"
    by simp
  have h2: "(le_word [0x34, 0x12, 0xAA, 0x55] :: 32 word) = VPK_SIG"
    by (simp add: VPK_SIG_def)
  show ?thesis
    using h1 h2 VPK_openArchive_claim_after_version [OF h1 h2, of PHYSFS_LIL_ENDIAN
        "vpkLoadEntries_flat PHYSFS_LIL_ENDIAN" "''a.vpk''" False]
    by simp
qed

text \<open>
  Claim C2, as stated: with signature and version accepted, the header check fails with
  "corrupt" exactly when the directory length is not a multiple of 18. The code tests
  \<open>count % 64\<close>: a directory length of 18 is refused as corrupt.
\<close>

theorem VPK_openArchive_directory_length_counterexample:
  "(18 :: 32 word) mod 18 = 0
   \<and> VPK_openArchive PHYSFS_LIL_ENDIAN (vpkLoadEntries PHYSFS_LIL_ENDIAN)
         \<lparr>stream = [0x34, 0x12, 0xAA, 0x55, 1, 0, 0, 0, 16, 0, 0, 0, 18, 0, 0, 0]
                    @ [97, 0, 98, 0, 99, 0, 0, 0, 0, 0, 0, 0, 0, 0, 0, 0, 0, 0, 0, 0,
                       0, 0, 0xFF, 0xFF, 0, 0, 0],
          cursor = 0, errcode = PHYSFS_ERR_OK\<rparr> ''a.vpk'' 0 False =
       \<lparr>ret = None, claimed = True, abandoned = None,
        mach = \<lparr>stream = [0x34, 0x12, 0xAA, 0x55, 1, 0, 0, 0, 16, 0, 0, 0, 18, 0, 0, 0]
                          @ [97, 0, 98, 0, 99, 0, 0, 0, 0, 0, 0, 0, 0, 0, 0, 0, 0, 0, 0, 0,
                             0, 0, 0xFF, 0xFF, 0, 0, 0],
                 cursor = 16, errcode = PHYSFS_ERR_CORRUPT\<rparr>\<rparr>"
  by code_simp

text \<open>
  Claim C2, amended. For every stream whose signature and version are accepted and whose
  directory offset and directory length can be read, opened for reading: open-archive
  fails with \<open>PHYSFS_ERR_CORRUPT\<close> before any registry exists if and only if the directory
  length is not a multiple of 64, and then it has consumed the 16 bytes of the header and
  has set \<open>*claimed\<close>; when the length is a multiple of 64, the function goes on to the
  directory table with the directory offset and the count \<open>length / 64\<close>.
\<close>

theorem VPK_openArchive_directory_length:
  assumes "drop (cursor s) (stream s) =
             m0 # m1 # m2 # m3 # v0 # v1 # v2 # v3 # p0 # p1 # p2 # p3 # n0 # n1 # n2 # n3 # rest"
    and "(le_word [m0, m1, m2, m3] :: 32 word) = VPK_SIG"
    and "(le_word [v0, v1, v2, v3] :: 32 word) = 1 \<or> (le_word [v0, v1, v2, v3] :: 32 word) = 2"
  shows "((ret (VPK_openArchive host load s name 0 claimed0) = None
           \<and> abandoned (VPK_openArchive host load s name 0 claimed0) = None
           \<and> errcode (mach (VPK_openArchive host load s name 0 claimed0)) = PHYSFS_ERR_CORRUPT)
          \<longleftrightarrow> (le_word [n0, n1, n2, n3] :: 32 word) mod 64 \<noteq> 0)
       \<and> ((le_word [n0, n1, n2, n3] :: 32 word) mod 64 \<noteq> 0 \<longrightarrow>
            VPK_openArchive host load s name 0 claimed0 =
              \<lparr>ret = None, claimed = True, abandoned = None,
               mach = s\<lparr>cursor := cursor s + 16, errcode := PHYSFS_ERR_CORRUPT\<rparr>\<rparr>)
       \<and> ((le_word [n0, n1, n2, n3] :: 32 word) mod 64 = 0 \<longrightarrow>
            VPK_openArchive host load s name 0 claimed0 =
              VPK_openArchive_entries load (s\<lparr>cursor := cursor s + 16\<rparr>)
                (le_word [p0, p1, p2, p3]) (le_word [n0, n1, n2, n3] div 64) True)"
proof (cases "(le_word [n0, n1, n2, n3] :: 32 word) mod 64 = 0")
  case True
  have eq: "VPK_openArchive host load s name 0 claimed0 =
              VPK_openArchive_entries load (s\<lparr>cursor := cursor s + 16\<rparr>)
                (le_word [p0, p1, p2, p3]) (le_word [n0, n1, n2, n3] div 64) True"
    using VPK_openArchive_header [OF assms] True by simp
  show ?thesis
    using True eq
      ret_abandoned_VPK_openArchive_entries [of load "s\<lparr>cursor := cursor s + 16\<rparr>"
        "le_word [p0, p1, p2, p3]" "le_word [n0, n1, n2, n3] div 64" True]
    by auto
next
  case False
  then show ?thesis using VPK_openArchive_header [OF assms] by simp
qed

theorem VPK_openArchive_directory_length_witness:
  "(le_word [0x34, 0x12, 0xAA, 0x55] :: 32 word) = VPK_SIG
   \<and> ((le_word [2, 0, 0, 0] :: 32 word) = 1 \<or> (le_word [2, 0, 0, 0] :: 32 word) = 2)
   \<and> (le_word [100, 0, 0, 0] :: 32 word) mod 64 \<noteq> 0
   \<and> (le_word [128, 0, 0, 0] :: 32 word) mod 64 = 0
   \<and> VPK_openArchive PHYSFS_BIG_ENDIAN (vpkLoadEntries_flat PHYSFS_BIG_ENDIAN)
         \<lparr>stream = [0x34, 0x12, 0xAA, 0x55, 2, 0, 0, 0, 16, 0, 0, 0, 100, 0, 0, 0, 7],
          cursor = 0, errcode = PHYSFS_ERR_OK\<rparr> ''a.vpk'' 0 False =
       \<lparr>ret = None, claimed = True, abandoned = None,
        mach = \<lparr>stream = [0x34, 0x12, 0xAA, 0x55, 2, 0, 0, 0, 16, 0, 0, 0, 100, 0, 0, 0, 7],
                 cursor = 16, errcode = PHYSFS_ERR_CORRUPT\<rparr>\<rparr>
   \<and> VPK_openArchive PHYSFS_BIG_ENDIAN (vpkLoadEntries_flat PHYSFS_BIG_ENDIAN)
         \<lparr>stream = [0x34, 0x12, 0xAA, 0x55, 2, 0, 0, 0, 16, 0, 0, 0, 128, 0, 0, 0, 7],
          cursor = 0, errcode = PHYSFS_ERR_OK\<rparr> ''a.vpk'' 0 False =
       VPK_openArchive_entries (vpkLoadEntries_flat PHYSFS_BIG_ENDIAN)
         \<lparr>stream = [0x34, 0x12, 0xAA, 0x55, 2, 0, 0, 0, 16, 0, 0, 0, 128, 0, 0, 0, 7],
          cursor = 16, errcode = PHYSFS_ERR_OK\<rparr> 16 2 True"
proof -
  let ?a = "\<lparr>stream = [0x34, 0x12, 0xAA, 0x55, 2, 0, 0, 0, 16, 0, 0, 0, 100, 0, 0, 0, 7],
             cursor = 0, errcode = PHYSFS_ERR_OK\<rparr>"
  let ?b = "\<lparr>stream = [0x34, 0x12, 0xAA, 0x55, 2, 0, 0, 0, 16, 0, 0, 0, 128, 0, 0, 0, 7],
             cursor = 0, errcode = PHYSFS_ERR_OK\<rparr>"
  have a: "drop (cursor ?a) (stream ?a) =
             0x34 # 0x12 # 0xAA # 0x55 # 2 # 0 # 0 # 0 # 16 # 0 # 0 # 0 # 100 # 0 # 0 # 0 # [7]"
    and b: "drop (cursor ?b) (stream ?b) =
             0x34 # 0x12 # 0xAA # 0x55 # 2 # 0 # 0 # 0 # 16 # 0 # 0 # 0 # 128 # 0 # 0 # 0 # [7]"
    by simp_all
  have m: "(le_word [0x34, 0x12, 0xAA, 0x55] :: 32 word) = VPK_SIG"
    by (simp add: VPK_SIG_def)
  have v: "(le_word [2, 0, 0, 0] :: 32 word) = 1 \<or> (le_word [2, 0, 0, 0] :: 32 word) = 2"
    by simp
  show ?thesis
    using m v
      VPK_openArchive_directory_length [OF a m v, of PHYSFS_BIG_ENDIAN
        "vpkLoadEntries_flat PHYSFS_BIG_ENDIAN" "''a.vpk''" False]
      VPK_openArchive_directory_length [OF b m v, of PHYSFS_BIG_ENDIAN
        "vpkLoadEntries_flat PHYSFS_BIG_ENDIAN" "''a.vpk''" False]
    by simp
qed

subsection \<open>The bounded string reader\<close>

text \<open>
  Claim C4, as stated: a successful read returns the number of bytes consumed, \<open>n + 1\<close> for
  \<open>n\<close> content bytes. The code returns the flag 1: on the string \<open>ab\<close> it consumes three
  bytes and returns 1.
\<close>

theorem vpkReadString_returns_count_counterexample:
  "vpkReadString \<lparr>stream = [97, 98, 0, 99], cursor = 0, errcode = PHYSFS_ERR_OK\<rparr> 256 =
     (1, [97, 98, 0], \<lparr>stream = [97, 98, 0, 99], cursor = 3, errcode = PHYSFS_ERR_OK\<rparr>)"
  by code_simp

text \<open>
  Claim C4, amended. For every stream and every capacity \<open>maxlen\<close>, when the next bytes are
  \<open>n\<close> bytes other than NUL followed by a NUL, with \<open>n < maxlen\<close>, the reader returns 1,
  has stored the \<open>n\<close> bytes and the NUL in \<open>dest\<close>, and has moved the cursor by \<open>n + 1\<close>,
  the bytes it consumed with the terminator; the error code is untouched.
\<close>

theorem vpkReadString_success:
  assumes "drop (cursor s) (stream s) = str @ 0 # rest"
    and "0 \<notin> set str"
    and "length str < maxlen"
  shows "vpkReadString s maxlen =
           (1, str @ [0], s\<lparr>cursor := cursor s + (length str + 1)\<rparr>)"
  using vpkReadString_cstr [OF assms] by simp

theorem vpkReadString_success_witness:
  "drop (cursor \<lparr>stream = [7, 97, 98, 0, 99], cursor = 1, errcode = PHYSFS_ERR_OK\<rparr>)
        (stream \<lparr>stream = [7, 97, 98, 0, 99], cursor = 1, errcode = PHYSFS_ERR_OK\<rparr>)
     = [97, 98] @ 0 # [99]
   \<and> (0::byte) \<notin> set [97, 98] \<and> length [97 :: byte, 98] < 3
   \<and> vpkReadString \<lparr>stream = [7, 97, 98, 0, 99], cursor = 1, errcode = PHYSFS_ERR_OK\<rparr> 3 =
       (1, [97, 98, 0], \<lparr>stream = [7, 97, 98, 0, 99], cursor = 4, errcode = PHYSFS_ERR_OK\<rparr>)"
proof -
  let ?s = "\<lparr>stream = [7, 97, 98, 0, 99], cursor = 1, errcode = PHYSFS_ERR_OK\<rparr>"
  have h1: "drop (cursor ?s) (stream ?s) = [97, 98] @ 0 # [99]" by simp
  have h2: "(0::byte) \<notin> set [97, 98]" by simp
  have h3: "length [97 :: byte, 98] < 3" by simp
  show ?thesis
    using h1 h2 h3 vpkReadString_success [OF h1 h2 h3] by simp
qed

text \<open>
  Claim C7. For every stream position at which none of the next \<open>maxlen\<close> bytes is NUL
  (fewer when the stream ends first), the reader returns 0. With the capacity 256 of the
  tree walker, each of its three loops then returns 0 at once when it is at such a
  position, whatever it has decoded before, so does \<open>vpkLoadEntries\<close>, and the end of
  open-archive that has sought to such a position returns NULL: the read is neither a
  success nor a partial one.
\<close>

theorem vpkReadString_unterminated:
  assumes "0 \<notin> set (take maxlen (drop (cursor s) (stream s)))"
  shows "fst (vpkReadString s maxlen) = 0
       \<and> (maxlen = 256 \<longrightarrow>
            fst (vpk_ext_loop host s) = 0
          \<and> fst (vpk_dir_loop host ext s) = 0
          \<and> fst (vpk_name_loop host ext dir s) = 0
          \<and> fst (vpkLoadEntries host s count arc) = 0
          \<and> (\<forall>s0 pos. io_seek s0 (unat pos) = (True, s) \<longrightarrow>
                ret (VPK_openArchive_entries (vpkLoadEntries host) s0 pos count c) = None))"
proof (intro conjI impI allI)
  show "fst (vpkReadString s maxlen) = 0" by (rule vpkReadString_no_nul [OF assms])
next
  assume m: "maxlen = 256"
  show e: "fst (vpk_ext_loop host s) = 0" and "fst (vpk_dir_loop host ext s) = 0"
    and "fst (vpk_name_loop host ext dir s) = 0"
    using assms vpk_loops_no_nul [of s] unfolding m by simp_all
  have l: "fst (vpkLoadEntries host s count a) = 0" for a
    using e by (cases "vpk_ext_loop host s") (simp add: vpkLoadEntries_def)
  show "fst (vpkLoadEntries host s count arc) = 0" by (rule l)
  fix s0 and pos :: "32 word"
  assume "io_seek s0 (unat pos) = (True, s)"
  with l [of "[]"]
  show "ret (VPK_openArchive_entries (vpkLoadEntries host) s0 pos count c) = None"
    by (cases "vpkLoadEntries host s count []")
      (simp add: VPK_openArchive_entries_def UNPK_openArchive_def)
qed

theorem vpkReadString_unterminated_witness:
  "0 \<notin> set (take 256 (drop (cursor \<lparr>stream = replicate 256 97 @ [0], cursor = 0,
                                        errcode = PHYSFS_ERR_OK\<rparr>)
                            (stream \<lparr>stream = replicate 256 97 @ [0], cursor = 0,
                                        errcode = PHYSFS_ERR_OK\<rparr>)))
   \<and> io_seek \<lparr>stream = replicate 256 97 @ [0], cursor = 0, errcode = PHYSFS_ERR_OK\<rparr>
         (unat (0 :: 32 word)) =
       (True, \<lparr>stream = replicate 256 97 @ [0], cursor = 0, errcode = PHYSFS_ERR_OK\<rparr>)
   \<and> fst (vpkReadString \<lparr>stream = replicate 256 97 @ [0], cursor = 0,
                           errcode = PHYSFS_ERR_OK\<rparr> 256) = 0
   \<and> fst (vpkLoadEntries PHYSFS_LIL_ENDIAN
            \<lparr>stream = replicate 256 97 @ [0], cursor = 0, errcode = PHYSFS_ERR_OK\<rparr> 0 []) = 0
   \<and> ret (VPK_openArchive_entries (vpkLoadEntries PHYSFS_LIL_ENDIAN)
            \<lparr>stream = replicate 256 97 @ [0], cursor = 0, errcode = PHYSFS_ERR_OK\<rparr>
            0 0 True) = None"
proof -
  let ?s = "\<lparr>stream = replicate 256 97 @ [0], cursor = 0, errcode = PHYSFS_ERR_OK\<rparr>"
  have h: "0 \<notin> set (take 256 (drop (cursor ?s) (stream ?s)))" by simp
  have k: "io_seek ?s (unat (0 :: 32 word)) = (True, ?s)" by (simp add: io_seek_def)
  note t = vpkReadString_unterminated [OF h, of PHYSFS_LIL_ENDIAN "[]" "[]" 0 "[]" True]
  from t have a: "fst (vpkReadString ?s 256) = 0" by blast
  from t have b: "fst (vpkLoadEntries PHYSFS_LIL_ENDIAN ?s 0 []) = 0" by blast
  from t k have c: "ret (VPK_openArchive_entries (vpkLoadEntries PHYSFS_LIL_ENDIAN)
                      ?s 0 0 True) = None" by blast
  from h k a b c show ?thesis by blast
qed

subsection \<open>All or nothing\<close>

text \<open>
  Claim C8. Whichever definition of \<open>vpkLoadEntries\<close> is called: when open-archive returns
  a registry, it has abandoned none and the registry is what a call of the loader on the
  new, empty registry returned together with a nonzero result, the machine being as that
  call left it; when open-archive has abandoned a registry, it returns NULL and the
  registry is the one a failed call of the loader left; and on every stream with an
  accepted header on which the loader, called after the seek to the directory table,
  returns 0, open-archive gives the partly built registry to \<open>UNPK_abandonArchive\<close> and
  returns NULL. So the caller gets a registry of a loader that succeeded or none at all.
\<close>

theorem VPK_openArchive_all_or_nothing:
  "(\<forall>h. ret (VPK_openArchive host load s name forWriting claimed0) = Some h \<longrightarrow>
        abandoned (VPK_openArchive host load s name forWriting claimed0) = None
      \<and> (\<exists>s1 cnt rv. rv \<noteq> 0 \<and>
            load s1 cnt [] = (rv, h, mach (VPK_openArchive host load s name forWriting claimed0))))
   \<and> (\<forall>a. abandoned (VPK_openArchive host load s name forWriting claimed0) = Some a \<longrightarrow>
        ret (VPK_openArchive host load s name forWriting claimed0) = None
      \<and> (\<exists>s1 cnt.
            load s1 cnt [] = (0, a, mach (VPK_openArchive host load s name forWriting claimed0))))
   \<and> (\<forall>s1 a s2.
        drop (cursor s) (stream s) =
          m0 # m1 # m2 # m3 # v0 # v1 # v2 # v3 # p0 # p1 # p2 # p3 # n0 # n1 # n2 # n3 # rest
        \<longrightarrow> (le_word [m0, m1, m2, m3] :: 32 word) = VPK_SIG
        \<longrightarrow> (le_word [v0, v1, v2, v3] :: 32 word) = 1 \<or> (le_word [v0, v1, v2, v3] :: 32 word) = 2
        \<longrightarrow> (le_word [n0, n1, n2, n3] :: 32 word) mod 64 = 0
        \<longrightarrow> io_seek (s\<lparr>cursor := cursor s + 16\<rparr>) (unat (le_word [p0, p1, p2, p3] :: 32 word))
              = (True, s1)
        \<longrightarrow> load s1 (le_word [n0, n1, n2, n3] div 64) [] = (0, a, s2)
        \<longrightarrow> VPK_openArchive host load s name 0 claimed0 =
              \<lparr>ret = None, claimed = True, abandoned = Some a, mach = s2\<rparr>)"
proof (intro conjI allI impI)
  fix h
  assume "ret (VPK_openArchive host load s name forWriting claimed0) = Some h"
  with VPK_openArchive_shape [of host load s name forWriting claimed0]
  obtain s4 pos count where
    e: "VPK_openArchive host load s name forWriting claimed0 =
          VPK_openArchive_entries load s4 pos count True"
    and r: "ret (VPK_openArchive_entries load s4 pos count True) = Some h"
    by auto
  from VPK_openArchive_entries_shape [of load s4 pos count True] r
  show "abandoned (VPK_openArchive host load s name forWriting claimed0) = None"
    and "\<exists>s1 cnt rv. rv \<noteq> 0 \<and>
            load s1 cnt [] = (rv, h, mach (VPK_openArchive host load s name forWriting claimed0))"
    unfolding e by blast+
next
  fix a
  assume "abandoned (VPK_openArchive host load s name forWriting claimed0) = Some a"
  with VPK_openArchive_shape [of host load s name forWriting claimed0]
  obtain s4 pos count where
    e: "VPK_openArchive host load s name forWriting claimed0 =
          VPK_openArchive_entries load s4 pos count True"
    and r: "abandoned (VPK_openArchive_entries load s4 pos count True) = Some a"
    by auto
  from VPK_openArchive_entries_shape [of load s4 pos count True] r
  show "ret (VPK_openArchive host load s name forWriting claimed0) = None"
    and "\<exists>s1 cnt.
            load s1 cnt [] = (0, a, mach (VPK_openArchive host load s name forWriting claimed0))"
    unfolding e by blast+
next
  fix s1 a s2
  assume d: "drop (cursor s) (stream s) =
          m0 # m1 # m2 # m3 # v0 # v1 # v2 # v3 # p0 # p1 # p2 # p3 # n0 # n1 # n2 # n3 # rest"
    and m: "(le_word [m0, m1, m2, m3] :: 32 word) = VPK_SIG"
    and v: "(le_word [v0, v1, v2, v3] :: 32 word) = 1 \<or> (le_word [v0, v1, v2, v3] :: 32 word) = 2"
    and n: "(le_word [n0, n1, n2, n3] :: 32 word) mod 64 = 0"
    and k: "io_seek (s\<lparr>cursor := cursor s + 16\<rparr>) (unat (le_word [p0, p1, p2, p3] :: 32 word))
              = (True, s1)"
    and l: "load s1 (le_word [n0, n1, n2, n3] div 64) [] = (0, a, s2)"
  show "VPK_openArchive host load s name 0 claimed0 =
              \<lparr>ret = None, claimed = True, abandoned = Some a, mach = s2\<rparr>"
    using VPK_openArchive_header [OF d m v, of host load name claimed0] n k l
    by (simp add: VPK_openArchive_entries_def UNPK_openArchive_def)
qed

theorem VPK_openArchive_all_or_nothing_witness:
  "VPK_openArchive PHYSFS_LIL_ENDIAN (vpkLoadEntries_flat PHYSFS_LIL_ENDIAN)
       \<lparr>stream = whole_table, cursor = 0, errcode = PHYSFS_ERR_OK\<rparr> ''a.vpk'' 0 False =
     \<lparr>ret = Some [\<lparr>path = [97, 46, 116, 120, 116], startPos = 128, size_bytes = 64\<rparr>],
      claimed = True, abandoned = None,
      mach = \<lparr>stream = whole_table, cursor = 80, errcode = PHYSFS_ERR_OK\<rparr>\<rparr>
   \<and> (\<exists>s1 cnt rv. rv \<noteq> 0 \<and>
         vpkLoadEntries_flat PHYSFS_LIL_ENDIAN s1 cnt [] =
           (rv, [\<lparr>path = [97, 46, 116, 120, 116], startPos = 128, size_bytes = 64\<rparr>],
            \<lparr>stream = whole_table, cursor = 80, errcode = PHYSFS_ERR_OK\<rparr>))
   \<and> io_seek \<lparr>stream = truncated_table, cursor = 16, errcode = PHYSFS_ERR_OK\<rparr>
         (unat (le_word [16, 0, 0, 0] :: 32 word)) =
       (True, \<lparr>stream = truncated_table, cursor = 16, errcode = PHYSFS_ERR_OK\<rparr>)
   \<and> vpkLoadEntries_flat PHYSFS_LIL_ENDIAN
         \<lparr>stream = truncated_table, cursor = 16, errcode = PHYSFS_ERR_OK\<rparr>
         (le_word [128, 0, 0, 0] div 64) [] =
       (0, [\<lparr>path = [97, 46, 116, 120, 116], startPos = 128, size_bytes = 64\<rparr>],
        \<lparr>stream = truncated_table, cursor = 83, errcode = PHYSFS_ERR_IO\<rparr>)
   \<and> VPK_openArchive PHYSFS_LIL_ENDIAN (vpkLoadEntries_flat PHYSFS_LIL_ENDIAN)
         \<lparr>stream = truncated_table, cursor = 0, errcode = PHYSFS_ERR_OK\<rparr> ''a.vpk'' 0 False =
       \<lparr>ret = None, claimed = True,
        abandoned = Some [\<lparr>path = [97, 46, 116, 120, 116], startPos = 128, size_bytes = 64\<rparr>],
        mach = \<lparr>stream = truncated_table, cursor = 83, errcode = PHYSFS_ERR_IO\<rparr>\<rparr>"
proof -
  let ?e = "\<lparr>path = [97, 46, 116, 120, 116], startPos = 128, size_bytes = 64\<rparr>"
  let ?w = "\<lparr>stream = whole_table, cursor = 0, errcode = PHYSFS_ERR_OK\<rparr>"
  let ?t = "\<lparr>stream = truncated_table, cursor = 0, errcode = PHYSFS_ERR_OK\<rparr>"
  let ?t16 = "\<lparr>stream = truncated_table, cursor = 16, errcode = PHYSFS_ERR_OK\<rparr>"
  let ?t83 = "\<lparr>stream = truncated_table, cursor = 83, errcode = PHYSFS_ERR_IO\<rparr>"
  let ?load = "vpkLoadEntries_flat PHYSFS_LIL_ENDIAN"
  note thm_w = VPK_openArchive_all_or_nothing [where host = PHYSFS_LIL_ENDIAN and load = ?load
      and s = ?w and name = "''a.vpk''" and forWriting = 0 and ?claimed0.0 = False]
  note thm_t = VPK_openArchive_all_or_nothing [where host = PHYSFS_LIL_ENDIAN and load = ?load
      and s = ?t and name = "''a.vpk''" and forWriting = 0 and ?claimed0.0 = False
      and ?m0.0 = "0x34" and ?m1.0 = "0x12" and ?m2.0 = "0xAA" and ?m3.0 = "0x55"
      and ?v0.0 = 1 and ?v1.0 = 0 and ?v2.0 = 0 and ?v3.0 = 0
      and ?p0.0 = 16 and ?p1.0 = 0 and ?p2.0 = 0 and ?p3.0 = 0
      and ?n0.0 = 128 and ?n1.0 = 0 and ?n2.0 = 0 and ?n3.0 = 0
      and rest = "[97, 46, 116, 120, 116] @ replicate 51 0 @ [128, 0, 0, 0, 64, 0, 0, 0]
                  @ [98, 46, 116]"]
  have w: "VPK_openArchive PHYSFS_LIL_ENDIAN ?load ?w ''a.vpk'' 0 False =
             \<lparr>ret = Some [?e], claimed = True, abandoned = None,
              mach = \<lparr>stream = whole_table, cursor = 80, errcode = PHYSFS_ERR_OK\<rparr>\<rparr>"
    by code_simp
  from thm_w have
    ex: "\<exists>s1 cnt rv. rv \<noteq> 0 \<and> ?load s1 cnt [] =
           (rv, [?e], \<lparr>stream = whole_table, cursor = 80, errcode = PHYSFS_ERR_OK\<rparr>)"
    unfolding w by simp
  have d: "drop (cursor ?t) (stream ?t) =
             0x34 # 0x12 # 0xAA # 0x55 # 1 # 0 # 0 # 0 # 16 # 0 # 0 # 0 # 128 # 0 # 0 # 0 #
             ([97, 46, 116, 120, 116] @ replicate 51 0 @ [128, 0, 0, 0, 64, 0, 0, 0]
              @ [98, 46, 116])"
    by (simp add: truncated_table_def)
  have m: "(le_word [0x34, 0x12, 0xAA, 0x55] :: 32 word) = VPK_SIG" by (simp add: VPK_SIG_def)
  have v: "(le_word [1, 0, 0, 0] :: 32 word) = 1 \<or> (le_word [1, 0, 0, 0] :: 32 word) = 2"
    by simp
  have n: "(le_word [128, 0, 0, 0] :: 32 word) mod 64 = 0" by simp
  have k: "io_seek (?t\<lparr>cursor := cursor ?t + 16\<rparr>) (unat (le_word [16, 0, 0, 0] :: 32 word))
             = (True, ?t16)"
    by (simp add: io_seek_def truncated_table_def)
  have l: "?load ?t16 (le_word [128, 0, 0, 0] div 64) [] = (0, [?e], ?t83)"
    by code_simp
  have t: "VPK_openArchive PHYSFS_LIL_ENDIAN ?load ?t ''a.vpk'' 0 False =
          \<lparr>ret = None, claimed = True, abandoned = Some [?e], mach = ?t83\<rparr>"
    by (rule thm_t [THEN conjunct2, THEN conjunct2, rule_format, OF d m v n k l])
  from k have k': "io_seek ?t16 (unat (le_word [16, 0, 0, 0] :: 32 word)) = (True, ?t16)"
    by simp
  from w ex k' l t show ?thesis by blast
qed

subsection \<open>The tree walker\<close>

text \<open>
  Claim C5. Whenever the walker is about to read a name and the stream holds there a
  non-empty name that ends within the 256 bytes of the buffer, followed by an 18-byte
  record whose last two bytes are not the number \<open>0xFFFF\<close>, the walker returns 0 after that
  record with the error code \<open>PHYSFS_ERR_CORRUPT\<close>, whatever the 16 bytes of crc, preload,
  archive index, offset and size are, on either host, and whatever it has decoded before.
  When that name is the first of the directory table, \<open>vpkLoadEntries\<close> returns 0 with that
  error code, and the end of open-archive that has sought to the table abandons the
  registry and returns NULL.
\<close>

theorem vpkLoadEntries_bad_terminator:
  assumes "drop (cursor s) (stream s) = name @ 0 # info @ t0 # t1 # rest"
    and "name \<noteq> []" and "0 \<notin> set name" and "length name < 256"
    and "length info = 16"
    and "(le_word [t0, t1] :: 16 word) \<noteq> 0xFFFF"
  shows "vpk_name_loop host ext dir s =
           (0, s\<lparr>cursor := cursor s + length name + 19, errcode := PHYSFS_ERR_CORRUPT\<rparr>)
       \<and> (\<forall>s0 e d sh pos.
             drop (cursor s0) (stream s0) = e @ 0 # d @ 0 # drop (cursor s) (stream s)
             \<longrightarrow> s = s0\<lparr>cursor := cursor s0 + length e + length d + 2\<rparr>
             \<longrightarrow> e \<noteq> [] \<and> 0 \<notin> set e \<and> length e < 256
             \<longrightarrow> d \<noteq> [] \<and> 0 \<notin> set d \<and> length d < 256
             \<longrightarrow> vpkLoadEntries host s0 count arc =
                   (0, arc, s\<lparr>cursor := cursor s + length name + 19,
                               errcode := PHYSFS_ERR_CORRUPT\<rparr>)
               \<and> (io_seek sh (unat pos) = (True, s0) \<longrightarrow>
                    VPK_openArchive_entries (vpkLoadEntries host) sh pos count c =
                      \<lparr>ret = None, claimed = c, abandoned = Some [],
                       mach = s\<lparr>cursor := cursor s + length name + 19,
                                errcode := PHYSFS_ERR_CORRUPT\<rparr>\<rparr>))"
proof (intro conjI allI impI)
  show "vpk_name_loop host ext dir s =
           (0, s\<lparr>cursor := cursor s + length name + 19, errcode := PHYSFS_ERR_CORRUPT\<rparr>)"
    by (rule vpk_name_loop_corrupt [OF assms])
next
  fix s0 e d sh and pos :: "32 word"
  assume d0: "drop (cursor s0) (stream s0) = e @ 0 # d @ 0 # drop (cursor s) (stream s)"
    and s: "s = s0\<lparr>cursor := cursor s0 + length e + length d + 2\<rparr>"
    and e: "e \<noteq> [] \<and> 0 \<notin> set e \<and> length e < 256"
    and d: "d \<noteq> [] \<and> 0 \<notin> set d \<and> length d < 256"
  let ?s1 = "s0\<lparr>cursor := cursor s0 + length e + 1\<rparr>"
  from e have e1: "e \<noteq> []" and e2: "0 \<notin> set e" and e3: "length e < 256" by simp_all
  from d have d1: "d \<noteq> []" and d2: "0 \<notin> set d" and d3: "length d < 256" by simp_all
  note x = vpk_loop_descend(1) [OF d0 e1 e2 e3, of host]
  have dd: "drop (cursor ?s1) (stream ?s1) = d @ 0 # drop (cursor s) (stream s)"
    using vpk_loop_descend(3) [OF d0 e1 e2 e3] by simp
  note y = vpk_loop_descend(2) [OF dd d1 d2 d3, of host "e @ [0]"]
  have s2: "?s1\<lparr>cursor := cursor ?s1 + length d + 1\<rparr> = s"
    unfolding s by simp
  have "vpk_ext_loop host s0 = vpk_name_loop host (e @ [0]) (d @ [0]) s"
    using x y s2 by simp
  then have l: "vpkLoadEntries host s0 count a =
      (0, a, s\<lparr>cursor := cursor s + length name + 19, errcode := PHYSFS_ERR_CORRUPT\<rparr>)" for a
    by (simp add: vpkLoadEntries_def vpk_name_loop_corrupt [OF assms])
  show "vpkLoadEntries host s0 count arc =
      (0, arc, s\<lparr>cursor := cursor s + length name + 19, errcode := PHYSFS_ERR_CORRUPT\<rparr>)"
    by (rule l)
  assume "io_seek sh (unat pos) = (True, s0)"
  then show "VPK_openArchive_entries (vpkLoadEntries host) sh pos count c =
                      \<lparr>ret = None, claimed = c, abandoned = Some [],
                       mach = s\<lparr>cursor := cursor s + length name + 19,
                                errcode := PHYSFS_ERR_CORRUPT\<rparr>\<rparr>"
    by (simp add: VPK_openArchive_entries_def UNPK_openArchive_def l)
qed

theorem vpkLoadEntries_bad_terminator_witness:
  "(le_word [0, 0] :: 16 word) \<noteq> 0xFFFF
   \<and> vpkLoadEntries PHYSFS_LIL_ENDIAN
         \<lparr>stream = chair_tree 0 0, cursor = 0, errcode = PHYSFS_ERR_OK\<rparr> 0 [] =
       (0, [], \<lparr>stream = chair_tree 0 0, cursor = 41, errcode = PHYSFS_ERR_CORRUPT\<rparr>)
   \<and> VPK_openArchive_entries (vpkLoadEntries PHYSFS_LIL_ENDIAN)
         \<lparr>stream = chair_tree 0 0, cursor = 0, errcode = PHYSFS_ERR_OK\<rparr> 0 0 True =
       \<lparr>ret = None, claimed = True, abandoned = Some [],
        mach = \<lparr>stream = chair_tree 0 0, cursor = 41, errcode = PHYSFS_ERR_CORRUPT\<rparr>\<rparr>"
proof -
  let ?top = "\<lparr>stream = chair_tree 0 0, cursor = 0, errcode = PHYSFS_ERR_OK\<rparr>"
  let ?s = "\<lparr>stream = chair_tree 0 0, cursor = 17, errcode = PHYSFS_ERR_OK\<rparr>"
  let ?info = "[0, 0, 0, 0, 0, 0, 0xFF, 0xFF, 128, 0, 0, 0, 64, 0, 0, 0] :: byte list"
  have a1: "drop (cursor ?s) (stream ?s) = bytes_of ''chair'' @ 0 # ?info @ 0 # 0 # [0, 0, 0]"
    by (simp add: chair_tree_def bytes_of_def)
  have a2: "bytes_of ''chair'' \<noteq> []" and a3: "0 \<notin> set (bytes_of ''chair'')"
    and a4: "length (bytes_of ''chair'') < 256"
    by (simp_all add: bytes_of_def)
  have a5: "length ?info = 16" by simp
  have a6: "(le_word [0, 0] :: 16 word) \<noteq> 0xFFFF" by simp
  have b1: "drop (cursor ?top) (stream ?top) =
              bytes_of ''txt'' @ 0 # bytes_of ''models/props'' @ 0 # drop (cursor ?s) (stream ?s)"
    by (simp add: chair_tree_def bytes_of_def)
  have b2: "?s = ?top\<lparr>cursor := cursor ?top + length (bytes_of ''txt'')
                              + length (bytes_of ''models/props'') + 2\<rparr>"
    by (simp add: bytes_of_def)
  have b3: "bytes_of ''txt'' \<noteq> [] \<and> 0 \<notin> set (bytes_of ''txt'')
            \<and> length (bytes_of ''txt'') < 256"
    and b4: "bytes_of ''models/props'' \<noteq> [] \<and> 0 \<notin> set (bytes_of ''models/props'')
            \<and> length (bytes_of ''models/props'') < 256"
    by (simp_all add: bytes_of_def)
  have k: "io_seek ?top (unat (0 :: 32 word)) = (True, ?top)" by (simp add: io_seek_def)
  note t = vpkLoadEntries_bad_terminator [OF a1 a2 a3 a4 a5 a6,
      where host = PHYSFS_LIL_ENDIAN and count = 0 and arc = "[]" and c = True,
      THEN conjunct2, rule_format, OF b1 b2 b3 b4]
  have fin: "?s\<lparr>cursor := cursor ?s + length (bytes_of ''chair'') + 19,
                 errcode := PHYSFS_ERR_CORRUPT\<rparr> =
             \<lparr>stream = chair_tree 0 0, cursor = 41, errcode = PHYSFS_ERR_CORRUPT\<rparr>"
    by (simp add: bytes_of_def)
  from t [THEN conjunct1] t [THEN conjunct2, rule_format, OF k] a6
  show ?thesis unfolding fin by simp
qed

subsection \<open>The flat table\<close>



subsection \<open>The scenario of the spec\<close>

text \<open>
  Claim C1 says that opening the archive of the scenario registers the one entry
  \<open>models/props/chair.txt\<close> at offset 128 with size 64. The code run on it: with a
  directory length that is a multiple of 64 the first \<open>vpkLoadEntries\<close> walks the whole
  tree, on either host, and open-archive returns an empty registry, since the walker
  assembles the path (the last conjunct is that path) and never calls \<open>UNPK_addEntry\<close>;
  with the directory length 44, the length in bytes of the tree, open-archive fails with
  \<open>PHYSFS_ERR_CORRUPT\<close> at the header; and with the second \<open>vpkLoadEntries\<close> the 44 bytes
  are too short for one record of 64.
\<close>

theorem VPK_openArchive_chair_scenario:
  "VPK_openArchive PHYSFS_LIL_ENDIAN (vpkLoadEntries PHYSFS_LIL_ENDIAN)
       \<lparr>stream = chair_archive 64, cursor = 0, errcode = PHYSFS_ERR_OK\<rparr> ''chair.vpk'' 0 False =
     \<lparr>ret = Some [], claimed = True, abandoned = None,
      mach = \<lparr>stream = chair_archive 64, cursor = 60, errcode = PHYSFS_ERR_OK\<rparr>\<rparr>
   \<and> VPK_openArchive PHYSFS_BIG_ENDIAN (vpkLoadEntries PHYSFS_BIG_ENDIAN)
       \<lparr>stream = chair_archive 64, cursor = 0, errcode = PHYSFS_ERR_OK\<rparr> ''chair.vpk'' 0 False =
     \<lparr>ret = Some [], claimed = True, abandoned = None,
      mach = \<lparr>stream = chair_archive 64, cursor = 60, errcode = PHYSFS_ERR_OK\<rparr>\<rparr>
   \<and> VPK_openArchive PHYSFS_LIL_ENDIAN (vpkLoadEntries PHYSFS_LIL_ENDIAN)
       \<lparr>stream = chair_archive 44, cursor = 0, errcode = PHYSFS_ERR_OK\<rparr> ''chair.vpk'' 0 False =
     \<lparr>ret = None, claimed = True, abandoned = None,
      mach = \<lparr>stream = chair_archive 44, cursor = 16, errcode = PHYSFS_ERR_CORRUPT\<rparr>\<rparr>
   \<and> VPK_openArchive PHYSFS_LIL_ENDIAN (vpkLoadEntries_flat PHYSFS_LIL_ENDIAN)
       \<lparr>stream = chair_archive 64, cursor = 0, errcode = PHYSFS_ERR_OK\<rparr> ''chair.vpk'' 0 False =
     \<lparr>ret = None, claimed = True, abandoned = Some [],
      mach = \<lparr>stream = chair_archive 64, cursor = 60, errcode = PHYSFS_ERR_IO\<rparr>\<rparr>
   \<and> vpk_path (bytes_of ''models/props'' @ [0]) (bytes_of ''chair'' @ [0]) (bytes_of ''txt'' @ [0])
       = bytes_of ''models/props/chair.txt''"
  by code_simp

end
